theory Spec2Isabelle
  imports Main
begin

section \<open>JavaScript values\<close>

text \<open>
  The values that reach the logger: call arguments, context objects, messages and causes.
  An object is the list of its enumerable own properties in enumeration order; an
  \<open>Error\<close> carries its \<open>name\<close> and \<open>message\<close> (neither is enumerable); a \<open>Date\<close>
  carries its epoch milliseconds. Numbers are the integers among JavaScript's numbers.
  Values are data: they form finite trees and hold no function-valued property.
  A string is the list of the bytes of its UTF-8 encoding.
\<close>

datatype val =
    VUndefined
  | VNull
  | VBool bool
  | VNum int
  | VBigInt int
  | VStr string
  | VArr "val list"
  | VObj "(string \<times> val) list"
  | VErr string string
  | VDate int

datatype exn = TypeError

text \<open>Truthiness, as \<open>&&\<close>, \<open>||\<close> and \<open>if\<close> read it.\<close>

fun truthy :: "val \<Rightarrow> bool" where
  "truthy VUndefined = False"
| "truthy VNull = False"
| "truthy (VBool b) = b"
| "truthy (VNum n) = (n \<noteq> 0)"
| "truthy (VBigInt n) = (n \<noteq> 0)"
| "truthy (VStr s) = (s \<noteq> [])"
| "truthy (VArr xs) = True"
| "truthy (VObj kvs) = True"
| "truthy (VErr n m) = True"
| "truthy (VDate d) = True"

definition js_or :: "val \<Rightarrow> val \<Rightarrow> val" where
  "js_or a b = (if truthy a then a else b)"

text \<open>\<open>x instanceof Error\<close>, \<open>x instanceof Date\<close>, \<open>Array.isArray(x)\<close>,
  \<open>typeof x === 'object'\<close> and \<open>x == null\<close>.\<close>

fun instanceof_Error :: "val \<Rightarrow> bool" where
  "instanceof_Error (VErr n m) = True"
| "instanceof_Error v = False"

fun instanceof_Date :: "val \<Rightarrow> bool" where
  "instanceof_Date (VDate d) = True"
| "instanceof_Date v = False"

fun isArray :: "val \<Rightarrow> bool" where
  "isArray (VArr xs) = True"
| "isArray v = False"

fun typeof_object :: "val \<Rightarrow> bool" where
  "typeof_object VNull = True"
| "typeof_object (VArr xs) = True"
| "typeof_object (VObj kvs) = True"
| "typeof_object (VErr n m) = True"
| "typeof_object (VDate d) = True"
| "typeof_object v = False"

fun loose_null :: "val \<Rightarrow> bool" where
  "loose_null VUndefined = True"
| "loose_null VNull = True"
| "loose_null v = False"

text \<open>No value of the model is a function: \<open>Object.prototype.toString.call(x) ===
  '[object Function]'\<close> is false throughout.\<close>

definition is_Function :: "val \<Rightarrow> bool" where
  "is_Function v = False"

text \<open>Array indices as property names.\<close>

fun string_of_nat :: "nat \<Rightarrow> string" where
  "string_of_nat n =
     (if n < 10 then [char_of (48 + n)]
      else string_of_nat (n div 10) @ [char_of (48 + n mod 10)])"

text \<open>
  The code points of a string, each as its bytes: a lead byte takes its continuation
  bytes with it.
\<close>

fun code_points :: "string \<Rightarrow> string list" where
  "code_points [] = []"
| "code_points (c # cs) =
     (let n = (of_char c :: nat);
          k = (if n < 192 then 0 else if n < 224 then 1 else if n < 240 then 2 else 3)
      in (c # take k cs) # code_points (drop k cs))"

text \<open>
  The UTF-16 code units of a string, which \<open>length\<close>, indexing and \<open>substr\<close> count: a
  code point of one to three bytes is one unit; a code point of four bytes is two
  surrogates, each written here as the three bytes of its own value.
\<close>

definition unit_bytes :: "nat \<Rightarrow> string" where
  "unit_bytes u = [char_of (224 + u div 4096), char_of (128 + (u div 64) mod 64), char_of (128 + u mod 64)]"

definition surrogates :: "string \<Rightarrow> string list" where
  "surrogates p =
     (let b = map (\<lambda>c. (of_char c :: nat)) p;
          cp = (b ! 0 mod 8) * 262144 + (b ! 1 mod 64) * 4096 + (b ! 2 mod 64) * 64 + b ! 3 mod 64;
          v = cp - 65536
      in [unit_bytes (55296 + v div 1024), unit_bytes (56320 + v mod 1024)])"

definition units :: "string \<Rightarrow> string list" where
  "units s = concat (map (\<lambda>p. if length p = 4 then surrogates p else [p]) (code_points s))"

definition substr :: "string \<Rightarrow> nat \<Rightarrow> string" where
  "substr s n = concat (drop n (units s))"

text \<open>
  The enumerable properties \<open>for (k in x)\<close> and \<open>Object.keys(x)\<close> visit: an object's own
  ones, the indices of an array or of a string; nothing for the other values.
\<close>

fun props :: "val \<Rightarrow> (string \<times> val) list" where
  "props (VObj kvs) = kvs"
| "props (VArr xs) = zip (map string_of_nat [0..<length xs]) xs"
| "props (VStr s) = zip (map string_of_nat [0..<length (units s)]) (map VStr (units s))"
| "props v = []"

definition keys :: "val \<Rightarrow> string list" where
  "keys v = map fst (props v)"

text \<open>\<open>own x k\<close> is the property itself, \<open>None\<close> when \<open>x\<close> has no such key;
  \<open>get_prop x k\<close> is the expression \<open>x[k]\<close>, \<open>undefined\<close> for a missing key. An error
  answers \<open>name\<close> and \<open>message\<close>.\<close>

definition own :: "val \<Rightarrow> string \<Rightarrow> val option" where
  "own v k = map_of (props v) k"

definition get_prop :: "val \<Rightarrow> string \<Rightarrow> val" where
  "get_prop v k =
     (case v of
        VErr n m \<Rightarrow> (if k = ''name'' then VStr n else if k = ''message'' then VStr m else VUndefined)
      | _ \<Rightarrow> (case own v k of Some x \<Rightarrow> x | None \<Rightarrow> VUndefined))"

text \<open>
  An array index is the decimal name of a number below \<open>2^32 - 1\<close>, without a leading
  zero. An object enumerates its array indices first, in ascending order, then its other
  names in the order in which they were added.
\<close>

definition is_digit :: "char \<Rightarrow> bool" where
  "is_digit c = (let n = (of_char c :: nat) in 48 \<le> n \<and> n \<le> 57)"

definition digits_value :: "string \<Rightarrow> int" where
  "digits_value s = foldl (\<lambda>a c. 10 * a + (of_char c - 48)) 0 s"

definition array_index :: "string \<Rightarrow> int option" where
  "array_index s =
     (if s \<noteq> [] \<and> list_all is_digit s \<and> (length s = 1 \<or> hd s \<noteq> CHR ''0'')
         \<and> digits_value s < 4294967295
      then Some (digits_value s) else None)"

text \<open>
  The assignment \<open>res[k] = v\<close> on a property list: an existing key keeps its place; a new
  array index goes before the first entry that is no smaller array index; any other new
  name goes last.
\<close>

fun update_prop :: "(string \<times> 'v) list \<Rightarrow> string \<Rightarrow> 'v \<Rightarrow> (string \<times> 'v) list" where
  "update_prop [] k v = []"
| "update_prop (p # ps) k v = (if fst p = k then (k, v) # ps else p # update_prop ps k v)"

fun place :: "int \<Rightarrow> string \<times> 'v \<Rightarrow> (string \<times> 'v) list \<Rightarrow> (string \<times> 'v) list" where
  "place n kv [] = [kv]"
| "place n kv (p # ps) =
     (case array_index (fst p) of
        Some m \<Rightarrow> (if m < n then p # place n kv ps else kv # p # ps)
      | None \<Rightarrow> kv # p # ps)"

definition set_prop :: "(string \<times> 'v) list \<Rightarrow> string \<Rightarrow> 'v \<Rightarrow> (string \<times> 'v) list" where
  "set_prop kvs k v =
     (if k \<in> fst ` set kvs then update_prop kvs k v
      else (case array_index k of
              Some n \<Rightarrow> place n (k, v) kvs
            | None \<Rightarrow> kvs @ [(k, v)]))"

text \<open>\<open>xs.indexOf(x)\<close>: the first position, \<open>-1\<close> when there is none.\<close>

fun indexOf :: "'a list \<Rightarrow> 'a \<Rightarrow> int" where
  "indexOf [] x = -1"
| "indexOf (y # ys) x = (if y = x then 0 else (let i = indexOf ys x in if i < 0 then -1 else i + 1))"

text \<open>\<open>arguments[i]\<close>: \<open>undefined\<close> past the end.\<close>

definition arg :: "val list \<Rightarrow> nat \<Rightarrow> val" where
  "arg arguments i = (if i < length arguments then arguments ! i else VUndefined)"

text \<open>
  \<open>s.toUpperCase()\<close>, code point by code point. The ASCII letters are converted, and so
  are the code points whose upper case is ASCII text: U+0131 to \<open>I\<close>, U+017F to \<open>S\<close>,
  U+00DF to \<open>SS\<close> and the ligatures U+FB00 to U+FB06 to \<open>FF\<close>, \<open>FI\<close>, \<open>FL\<close>, \<open>FFI\<close>,
  \<open>FFL\<close>, \<open>ST\<close>, \<open>ST\<close>. Any other code point is left as it is, where JavaScript may
  give another text that is not ASCII either: the result is the one of JavaScript
  whenever either of the two is ASCII text, so a comparison with a level name comes out
  as in the code.
\<close>

definition upper_char :: "char \<Rightarrow> char" where
  "upper_char c = (let n = (of_char c :: nat) in if 97 \<le> n \<and> n \<le> 122 then char_of (n - 32) else c)"

definition lower_char :: "char \<Rightarrow> char" where
  "lower_char c = (let n = (of_char c :: nat) in if 65 \<le> n \<and> n \<le> 90 then char_of (n + 32) else c)"

definition special_upper :: "(string \<times> string) list" where
  "special_upper =
     [([CHR 0xC4, CHR 0xB1], ''I''),
      ([CHR 0xC5, CHR 0xBF], ''S''),
      ([CHR 0xC3, CHR 0x9F], ''SS''),
      ([CHR 0xEF, CHR 0xAC, CHR 0x80], ''FF''),
      ([CHR 0xEF, CHR 0xAC, CHR 0x81], ''FI''),
      ([CHR 0xEF, CHR 0xAC, CHR 0x82], ''FL''),
      ([CHR 0xEF, CHR 0xAC, CHR 0x83], ''FFI''),
      ([CHR 0xEF, CHR 0xAC, CHR 0x84], ''FFL''),
      ([CHR 0xEF, CHR 0xAC, CHR 0x85], ''ST''),
      ([CHR 0xEF, CHR 0xAC, CHR 0x86], ''ST'')]"

definition upper_point :: "string \<Rightarrow> string" where
  "upper_point p =
     (case map_of special_upper p of
        Some r \<Rightarrow> r
      | None \<Rightarrow> map upper_char p)"

definition toUpperCase :: "string \<Rightarrow> string" where
  "toUpperCase s = concat (map upper_point (code_points s))"

text \<open>
  \<open>s.toLowerCase()\<close>, likewise: the ASCII letters, and U+212A (the Kelvin sign) to \<open>k\<close>,
  the one other code point whose lower case is ASCII text. The code applies it to the
  level names only.
\<close>

definition lower_point :: "string \<Rightarrow> string" where
  "lower_point p = (if p = [CHR 0xE2, CHR 0x84, CHR 0xAA] then ''k'' else map lower_char p)"

definition toLowerCase :: "string \<Rightarrow> string" where
  "toLowerCase s = concat (map lower_point (code_points s))"

section \<open>\<open>merge\<close> (logops.js)\<close>

text \<open>
  \<open>merge(obj1, obj2)\<close> starts from a fresh \<open>res = {}\<close> and runs two \<open>for ... in\<close> loops,
  each assigning \<open>res[attrname] = obj[attrname]\<close>.
\<close>

definition copy_props :: "val \<Rightarrow> (string \<times> val) list \<Rightarrow> (string \<times> val) list" where
  "copy_props obj res = fold (\<lambda>attrname r. set_prop r attrname (get_prop obj attrname)) (keys obj) res"

definition merge :: "val \<Rightarrow> val \<Rightarrow> val" where
  "merge obj1 obj2 = VObj (copy_props obj2 (copy_props obj1 []))"



section \<open>The call resolver of \<open>logWrap\<close> (logops.js)\<close>

text \<open>
  The three branches of \<open>log()\<close>, in the source's order: an error first; a message first
  (\<open>null\<close>, \<open>undefined\<close>, not an object, or an array); otherwise a context first.
\<close>

datatype call_shape = ErrorLed | MessageLed | ContextLed

definition classify :: "val list \<Rightarrow> call_shape" where
  "classify arguments =
     (if instanceof_Error (arg arguments 0) then ErrorLed
      else if loose_null (arg arguments 0)
              \<or> (\<not> typeof_object (arg arguments 0) \<and> arg arguments 0 \<noteq> VNull)
              \<or> isArray (arg arguments 0) then MessageLed
      else ContextLed)"

record resolved =
  r_context :: val
  r_message :: val
  r_args :: "val list"
  r_err :: val

text \<open>\<open>err_text e\<close> is \<open>e.name + ': ' + e.message\<close> for an error \<open>e\<close>.\<close>

fun err_text :: "val \<Rightarrow> string" where
  "err_text (VErr n m) = n @ '': '' @ m"
| "err_text v = []"

text \<open>\<open>resolve ctx arguments\<close> is the body of \<open>log()\<close> up to the call of the formatter;
  \<open>ctx\<close> is what \<open>API.getContext()\<close> returned (every branch calls it once).\<close>

definition resolve :: "val \<Rightarrow> val list \<Rightarrow> resolved" where
  "resolve ctx arguments =
     (case classify arguments of
        ErrorLed \<Rightarrow>
          (let args = drop 1 arguments in
           if args = []
           then \<lparr>r_context = ctx, r_message = VStr (err_text (arg arguments 0)),
                  r_args = args, r_err = arg arguments 0\<rparr>
           else \<lparr>r_context = ctx, r_message = arg arguments 1,
                  r_args = drop 1 args, r_err = arg arguments 0\<rparr>)
      | MessageLed \<Rightarrow>
          \<lparr>r_context = ctx, r_message = arg arguments 0,
            r_args = drop 1 arguments, r_err = VUndefined\<rparr>
      | ContextLed \<Rightarrow>
          \<lparr>r_context = merge ctx (arg arguments 0), r_message = arg arguments 1,
            r_args = drop 2 arguments, r_err = VUndefined\<rparr>)"

section \<open>The formatters' surroundings\<close>

text \<open>
  What formatters.js reads but does not define: the clock, Node's \<open>util\<close>, the packages
  \<open>chalk\<close> and \<open>serr\<close>, and the conversions of the language; and the module's own
  settings (\<open>notAvailable\<close>, \<open>API.stacktracesWith\<close>, \<open>formatDevTrace.omit\<close>).
\<close>

datatype json =
    JNull
  | JBool bool
  | JNum int
  | JStr string
  | JArr "json list"
  | JObj "(string \<times> json) list"

record env =
  now :: int
  notAvailable :: val
  stacktracesWith :: "string list"
  omit :: "string list"
  toISOString :: "int \<Rightarrow> string"
  str_ext :: "val \<Rightarrow> string"
  format_ext :: "val list \<Rightarrow> string"
  inspect :: "val \<Rightarrow> string"
  chalk :: "string \<Rightarrow> string \<Rightarrow> string"
  serr_toString :: "val \<Rightarrow> bool \<Rightarrow> string"
  serr_toObject :: "val \<Rightarrow> bool \<Rightarrow> (string \<times> val) list"

definition DEFAULT_NOT_AVAILABLE :: string where
  "DEFAULT_NOT_AVAILABLE = ''n/a''"

definition setNotAvailable :: "val \<Rightarrow> env \<Rightarrow> env" where
  "setNotAvailable na h = h\<lparr>notAvailable := na\<rparr>"

text \<open>\<open>xs.join(sep)\<close> on strings.\<close>

fun join :: "string \<Rightarrow> string list \<Rightarrow> string" where
  "join sep [] = []"
| "join sep [x] = x"
| "join sep (x # y # ys) = x @ sep @ join sep (y # ys)"

text \<open>
  String conversion (\<open>'' + x\<close>, and the operands of \<open>+\<close> next to a string). An error
  converts by \<open>Error.prototype.toString\<close>, an array by \<open>join(',')\<close>, in which \<open>null\<close> and
  \<open>undefined\<close> are empty; numbers, objects and dates are left to the surroundings.
\<close>

fun to_string_err :: "val \<Rightarrow> string" where
  "to_string_err (VErr n m) = (if n = [] then m else if m = [] then n else n @ '': '' @ m)"
| "to_string_err v = []"

fun to_string :: "env \<Rightarrow> val \<Rightarrow> string" where
  "to_string h VUndefined = ''undefined''"
| "to_string h VNull = ''null''"
| "to_string h (VBool b) = (if b then ''true'' else ''false'')"
| "to_string h (VStr s) = s"
| "to_string h (VErr n m) = to_string_err (VErr n m)"
| "to_string h (VArr xs) = join '','' (map (\<lambda>x. if loose_null x then [] else to_string h x) xs)"
| "to_string h v = str_ext h v"

text \<open>
  \<open>util.format(...)\<close>: a single string is returned as it is, \<open>undefined\<close> alone is
  inspected to \<open>undefined\<close>; every other call is left to the surroundings.
\<close>

fun util_format :: "env \<Rightarrow> val list \<Rightarrow> string" where
  "util_format h [VStr s] = s"
| "util_format h [VUndefined] = ''undefined''"
| "util_format h vs = format_ext h vs"

text \<open>\<open>s.split('\n')\<close> and \<open>s.replace(/\r?\n/g, '\n      ')\<close>.\<close>

fun split_lines :: "string \<Rightarrow> string list" where
  "split_lines [] = [[]]"
| "split_lines (c # cs) =
     (if c = CHR 0x0A then [] # split_lines cs
      else (case split_lines cs of [] \<Rightarrow> [[c]] | l # ls \<Rightarrow> (c # l) # ls))"

fun reindent :: "string \<Rightarrow> string" where
  "reindent [] = []"
| "reindent [c] = (if c = CHR 0x0A then CHR 0x0A # ''      '' else [c])"
| "reindent (c # d # cs) =
     (if c = CHR 0x0D \<and> d = CHR 0x0A then CHR 0x0A # ''      '' @ reindent cs
      else if c = CHR 0x0A then CHR 0x0A # ''      '' @ reindent (d # cs)
      else c # reindent (d # cs))"

section \<open>\<open>formatDevTrace\<close> (formatters.js)\<close>

definition colorize :: "env \<Rightarrow> string \<Rightarrow> string \<Rightarrow> string" where
  "colorize h color str = join [CHR 0x0A] (map (chalk h color) (split_lines str))"

text \<open>The \<open>switch (level)\<close>: \<open>str\<close> stays \<open>undefined\<close> for any other level.\<close>

definition level_token :: "env \<Rightarrow> string \<Rightarrow> val" where
  "level_token h level =
     (if level = ''DEBUG'' then VStr (chalk h ''grey'' level)
      else if level = ''INFO'' then VStr (chalk h ''blue'' level @ '' '')
      else if level = ''WARN'' then VStr (chalk h ''yellow'' level @ '' '')
      else if level = ''ERROR'' then VStr (chalk h ''red'' level)
      else if level = ''FATAL'' then VStr (chalk h ''red.bold'' level)
      else VUndefined)"

text \<open>\<open>_.omit(obj, names)\<close> for names that lodash reads as keys of \<open>obj\<close>; a name that it
  reads as a path into nested values is not covered.\<close>

definition lodash_omit :: "val \<Rightarrow> string list \<Rightarrow> val" where
  "lodash_omit obj ks = VObj (filter (\<lambda>(k, v). k \<notin> set ks) (props obj))"

definition formatDevTrace :: "env \<Rightarrow> string \<Rightarrow> val \<Rightarrow> val \<Rightarrow> val list \<Rightarrow> val \<Rightarrow> exn + string" where
  "formatDevTrace h level context message args err =
     (let mainMessage = util_format h (message # args);
          printStack = (indexOf (stacktracesWith h) level > -1);
          errCommomMessage =
            (if truthy err
             then VStr (to_string h (get_prop err ''name'') @ '': '' @ to_string h (get_prop err ''message''))
             else err);
          isErrorLoggingWithoutMessage = (VStr mainMessage = errCommomMessage);
          str = to_string h (level_token h level) @ '' '' @ mainMessage;
          str = (if isErrorLoggingWithoutMessage
                 then str @ colorize h ''gray'' (substr (serr_toString h err printStack) (length (units mainMessage)))
                 else if truthy err
                 then str @ [CHR 0x0A] @ colorize h ''gray'' (serr_toString h err printStack)
                 else str);
          localContext = lodash_omit context (omit h);
          str = str @ (if keys localContext \<noteq> []
                       then '' '' @ colorize h ''gray'' (inspect h localContext)
                       else [])
      in Inr (reindent str))"

section \<open>\<open>formatTrace\<close>, the pipe format (formatters.js)\<close>

text \<open>
  The object \<open>recontext\<close> once \<open>msg\<close> is set: the five leading fields, then the context's
  keys (a key already there keeps its place and takes the context's value), then \<open>msg\<close>.
\<close>

definition formatTrace_recontext :: "env \<Rightarrow> string \<Rightarrow> val \<Rightarrow> val \<Rightarrow> (string \<times> val) list" where
  "formatTrace_recontext h level context message =
     (let recontext =
            [(''time'', VStr (toISOString h (now h))),
             (''lvl'', VStr level),
             (''corr'', js_or (get_prop context ''corr'') (notAvailable h)),
             (''trans'', js_or (get_prop context ''trans'') (notAvailable h)),
             (''op'', js_or (get_prop context ''op'') (notAvailable h))];
          recontext =
            fold (\<lambda>key rc. set_prop rc key (js_or (get_prop context key) (notAvailable h)))
              (filter (\<lambda>key. \<not> (truthy (get_prop context key) \<and> is_Function (get_prop context key)))
                 (keys context))
              recontext
      in set_prop recontext ''msg''
           (if instanceof_Date message \<or> instanceof_Error message
            then VStr (util_format h [message])
            else message))"

text \<open>
  The array \<open>args\<close> when it is handed to \<open>util.format\<close>: the joined fields first
  (\<open>unshift\<close>), the cause last (\<open>push\<close>) when \<open>err && message !== '' + err\<close>.
\<close>

definition formatTrace_args :: "env \<Rightarrow> string \<Rightarrow> val \<Rightarrow> val \<Rightarrow> val list \<Rightarrow> val \<Rightarrow> val list" where
  "formatTrace_args h level context message args err =
     (let recontext = formatTrace_recontext h level context message;
          str = join '' | '' (map (\<lambda>(key, v). key @ ''='' @ to_string h v) recontext);
          args = VStr str # args;
          args = (if truthy err \<and> message \<noteq> VStr (to_string h err) then args @ [err] else args)
      in args)"

text \<open>\<open>formatTrace\<close>; \<open>context.corr\<close> on \<open>null\<close> or \<open>undefined\<close> raises a \<open>TypeError\<close>.\<close>

definition formatTrace :: "env \<Rightarrow> string \<Rightarrow> val \<Rightarrow> val \<Rightarrow> val list \<Rightarrow> val \<Rightarrow> exn + string" where
  "formatTrace h level context message args err =
     (if loose_null context then Inl TypeError
      else Inr (util_format h (formatTrace_args h level context message args err)))"

section \<open>\<open>formatJsonTrace\<close> (formatters.js)\<close>

text \<open>
  \<open>JSON.stringify\<close> on a data value: it raises a \<open>TypeError\<close> at a \<open>BigInt\<close> leaf;
  otherwise it writes the text of a document in which a property holding \<open>undefined\<close> is
  left out, an array element \<open>undefined\<close> is \<open>null\<close>, a date is its ISO string and an
  error (no enumerable property) is \<open>{}\<close>.
\<close>

fun serializable :: "val \<Rightarrow> bool" where
  "serializable (VBigInt n) = False"
| "serializable (VArr xs) = list_all serializable xs"
| "serializable (VObj kvs) = list_all (\<lambda>(k, v). serializable v) kvs"
| "serializable v = True"

fun encode :: "(int \<Rightarrow> string) \<Rightarrow> val \<Rightarrow> json" where
  "encode dt VUndefined = JNull"
| "encode dt VNull = JNull"
| "encode dt (VBool b) = JBool b"
| "encode dt (VNum n) = JNum n"
| "encode dt (VBigInt n) = JNull"
| "encode dt (VStr s) = JStr s"
| "encode dt (VDate d) = JStr (dt d)"
| "encode dt (VErr n m) = JObj []"
| "encode dt (VArr xs) = JArr (map (encode dt) xs)"
| "encode dt (VObj kvs) =
     JObj (map (\<lambda>(k, v). (k, encode dt v)) (filter (\<lambda>(k, v). v \<noteq> VUndefined) kvs))"

text \<open>The members of the document of an object.\<close>

definition json_members :: "(int \<Rightarrow> string) \<Rightarrow> (string \<times> val) list \<Rightarrow> (string \<times> json) list" where
  "json_members dt kvs = map (\<lambda>(k, v). (k, encode dt v)) (filter (\<lambda>(k, v). v \<noteq> VUndefined) kvs)"

text \<open>
  The text of a document, as \<open>JSON.stringify\<close> writes it without indentation: strings
  quoted with the escapes of \<open>QuoteJSONString\<close>, a number as its string conversion.
\<close>

definition hex_digit :: "nat \<Rightarrow> char" where
  "hex_digit n = (if n < 10 then char_of (48 + n) else char_of (87 + n))"

definition quote_char :: "char \<Rightarrow> string" where
  "quote_char c =
     (let n = (of_char c :: nat) in
      if n = 8 then [CHR 0x5C, CHR ''b'']
      else if n = 9 then [CHR 0x5C, CHR ''t'']
      else if n = 10 then [CHR 0x5C, CHR ''n'']
      else if n = 12 then [CHR 0x5C, CHR ''f'']
      else if n = 13 then [CHR 0x5C, CHR ''r'']
      else if n = 34 then [CHR 0x5C, CHR 0x22]
      else if n = 92 then [CHR 0x5C, CHR 0x5C]
      else if n < 32 then [CHR 0x5C, CHR ''u'', CHR ''0'', CHR ''0'', hex_digit (n div 16), hex_digit (n mod 16)]
      else [c])"

definition quote :: "string \<Rightarrow> string" where
  "quote s = CHR 0x22 # concat (map quote_char s) @ [CHR 0x22]"

fun json_text :: "env \<Rightarrow> json \<Rightarrow> string" where
  "json_text h JNull = ''null''"
| "json_text h (JBool b) = (if b then ''true'' else ''false'')"
| "json_text h (JNum n) = str_ext h (VNum n)"
| "json_text h (JStr s) = quote s"
| "json_text h (JArr xs) = ''['' @ join '','' (map (json_text h) xs) @ '']''"
| "json_text h (JObj ms) =
     ''{'' @ join '','' (map (\<lambda>(k, j). quote k @ '':'' @ json_text h j) ms) @ ''}''"

definition JSON_stringify :: "env \<Rightarrow> (string \<times> val) list \<Rightarrow> exn + string" where
  "JSON_stringify h obj =
     (if serializable (VObj obj) then Inr (json_text h (encode (toISOString h) (VObj obj)))
      else Inl TypeError)"

text \<open>
  The package \<open>safe-json-stringify\<close> is \<open>JSON.stringify(ensureProperties(data))\<close>. Its
  \<open>ensureProperties\<close> copies objects and arrays, puts \<open>[Circular]\<close> for a reference to
  an enclosing object and a text for a getter that throws, and replaces a value that has
  a \<open>toJSON\<close> method by the copy of what the method returns; every other leaf, also a
  \<open>BigInt\<close>, stays as it is. A data value has neither cycle nor getter, and its only
  \<open>toJSON\<close> is the one of a date, which returns the ISO string.
\<close>

fun ensureProperties :: "(int \<Rightarrow> string) \<Rightarrow> val \<Rightarrow> val" where
  "ensureProperties dt (VDate d) = VStr (dt d)"
| "ensureProperties dt (VArr xs) = VArr (map (ensureProperties dt) xs)"
| "ensureProperties dt (VObj kvs) = VObj (map (\<lambda>(k, v). (k, ensureProperties dt v)) kvs)"
| "ensureProperties dt (VErr n m) = VObj []"
| "ensureProperties dt v = v"

definition safeStringify :: "env \<Rightarrow> (string \<times> val) list \<Rightarrow> exn + string" where
  "safeStringify h obj = JSON_stringify h (props (ensureProperties (toISOString h) (VObj obj)))"

text \<open>\<open>formatJsonTrace.stringify\<close>: \<open>try { return JSON.stringify(obj); } catch (err)
  { return safeStringify(obj); }\<close>.\<close>

definition formatJsonTrace_stringify :: "env \<Rightarrow> (string \<times> val) list \<Rightarrow> exn + string" where
  "formatJsonTrace_stringify h obj =
     (case JSON_stringify h obj of
        Inr s \<Rightarrow> Inr s
      | Inl e \<Rightarrow> safeStringify h obj)"

definition formatJsonTrace_toObject ::
    "env \<Rightarrow> string \<Rightarrow> val \<Rightarrow> val \<Rightarrow> val list \<Rightarrow> val \<Rightarrow> (string \<times> val) list" where
  "formatJsonTrace_toObject h level context message args err =
     (let log = copy_props context [];
          log = set_prop log ''time'' (VDate (now h));
          log = set_prop log ''lvl'' (VStr level);
          log = set_prop log ''err''
                  (if truthy err
                   then VObj (serr_toObject h err (indexOf (stacktracesWith h) level > -1))
                   else err);
          log = set_prop log ''msg'' (VStr (util_format h (message # args)))
      in log)"

definition formatJsonTrace :: "env \<Rightarrow> string \<Rightarrow> val \<Rightarrow> val \<Rightarrow> val list \<Rightarrow> val \<Rightarrow> exn + string" where
  "formatJsonTrace h level context message args err =
     formatJsonTrace_stringify h (formatJsonTrace_toObject h level context message args err)"

section \<open>Logger instances (logops.js)\<close>

text \<open>
  \<open>logops(options)\<close> builds one \<open>API\<close> object around its own \<open>opts\<close>. The instances live
  in a table by identity, since a child's context getter is a closure over its parent's
  \<open>API\<close>. A context getter is a function of the surroundings (whatever ambient state it
  reads, here a number) or the closure \<open>() => merge(API.getContext(), localContext)\<close>
  that \<open>child\<close> builds; a level function is \<open>noop\<close> or the closure \<open>logWrap(level)\<close>;
  a stream is named by a number.
\<close>

type_synonym ambient = nat

datatype getter =
    Host_getter "ambient \<Rightarrow> val"
  | Child_getter nat val

datatype level_fn = Noop | LogWrap string

type_synonym formatter = "env \<Rightarrow> string \<Rightarrow> val \<Rightarrow> val \<Rightarrow> val list \<Rightarrow> val \<Rightarrow> exn + string"

record logger =
  opts_level :: val
  stream :: nat
  getContext :: getter
  format :: formatter
  level_fns :: "(string \<times> level_fn) list"

record world =
  loggers :: "nat \<Rightarrow> logger"
  next_logger :: nat

definition levels :: "string list" where
  "levels = [''DEBUG'', ''INFO'', ''WARN'', ''ERROR'', ''FATAL'']"

definition DEFAULT_LEVEL :: string where
  "DEFAULT_LEVEL = ''INFO''"

definition noop :: getter where
  "noop = Host_getter (\<lambda>a. VUndefined)"

text \<open>
  \<open>setLevel(level)\<close> stores \<open>opts.level\<close> first; \<open>opts.level.toUpperCase()\<close> raises a
  \<open>TypeError\<close> when the level is not a string; then every level function is rebound.
\<close>

definition setLevel :: "val \<Rightarrow> logger \<Rightarrow> exn option \<times> logger" where
  "setLevel level API =
     (let API = API\<lparr>opts_level := level\<rparr> in
      case level of
        VStr s \<Rightarrow>
          (let logLevelIndex = indexOf levels (toUpperCase s) in
           (None,
            API\<lparr>level_fns :=
                  fold (\<lambda>logLevel fns.
                          set_prop fns (toLowerCase logLevel)
                            (if logLevelIndex \<le> indexOf levels logLevel then LogWrap logLevel else Noop))
                    levels (level_fns API)\<rparr>))
      | _ \<Rightarrow> (Some TypeError, API))"

definition getLevel :: "logger \<Rightarrow> val" where
  "getLevel API = opts_level API"

text \<open>The setters of one instance, on the table.\<close>

definition setLevel_at :: "world \<Rightarrow> nat \<Rightarrow> val \<Rightarrow> exn option \<times> world" where
  "setLevel_at w i level =
     (case setLevel level (loggers w i) of
        (r, API) \<Rightarrow> (r, w\<lparr>loggers := (loggers w)(i := API)\<rparr>))"

definition setStream :: "world \<Rightarrow> nat \<Rightarrow> nat \<Rightarrow> world" where
  "setStream w i s = w\<lparr>loggers := (loggers w)(i := (loggers w i)\<lparr>stream := s\<rparr>)\<rparr>"

definition setFormat :: "world \<Rightarrow> nat \<Rightarrow> formatter \<Rightarrow> world" where
  "setFormat w i f = w\<lparr>loggers := (loggers w)(i := (loggers w i)\<lparr>format := f\<rparr>)\<rparr>"

definition setContextGetter :: "world \<Rightarrow> nat \<Rightarrow> getter \<Rightarrow> world" where
  "setContextGetter w i fn = w\<lparr>loggers := (loggers w)(i := (loggers w i)\<lparr>getContext := fn\<rparr>)\<rparr>"

text \<open>
  Calling a context getter. A child's getter calls its parent's current getter, which may
  be any getter (also the child's own, assigned back to the parent): the call chain is
  followed for a number of steps, and \<open>None\<close> means it has not returned within them.
\<close>

fun call_getter :: "nat \<Rightarrow> (nat \<Rightarrow> logger) \<Rightarrow> ambient \<Rightarrow> getter \<Rightarrow> val option" where
  "call_getter 0 ls a g = None"
| "call_getter (Suc n) ls a (Host_getter f) = Some (f a)"
| "call_getter (Suc n) ls a (Child_getter p localContext) =
     (case call_getter n ls a (getContext (ls p)) of
        None \<Rightarrow> None
      | Some c \<Rightarrow> Some (merge c localContext))"

text \<open>
  What a call does: the formatter invocations and the writes to a stream, in order, and the
  exception it ends with, if any.
\<close>

datatype event =
    Formatted string val val "val list" val
  | Written nat string

text \<open>\<open>logWrap(level)\<close>, called with \<open>arguments\<close> on the instance \<open>i\<close>: resolve, then
  \<open>trace = API.format(level, context || {}, message, args, err)\<close>, then
  \<open>API.stream.write(trace + '\n')\<close>.\<close>

definition logWrap ::
    "nat \<Rightarrow> env \<Rightarrow> world \<Rightarrow> ambient \<Rightarrow> nat \<Rightarrow> string \<Rightarrow> val list \<Rightarrow> (exn option \<times> event list) option" where
  "logWrap fuel h w a i level arguments =
     (let API = loggers w i in
      case call_getter fuel (loggers w) a (getContext API) of
        None \<Rightarrow> None
      | Some ctx \<Rightarrow>
          (let r = resolve ctx arguments;
               context = js_or (r_context r) (VObj []);
               ev = Formatted level context (r_message r) (r_args r) (r_err r)
           in case format API h level context (r_message r) (r_args r) (r_err r) of
                Inl e \<Rightarrow> Some (Some e, [ev])
              | Inr trace \<Rightarrow> Some (None, [ev, Written (stream API) (trace @ [CHR 0x0A])])))"

fun invoke ::
    "nat \<Rightarrow> env \<Rightarrow> world \<Rightarrow> ambient \<Rightarrow> nat \<Rightarrow> level_fn \<Rightarrow> val list \<Rightarrow> (exn option \<times> event list) option" where
  "invoke fuel h w a i Noop arguments = Some (None, [])"
| "invoke fuel h w a i (LogWrap level) arguments = logWrap fuel h w a i level arguments"

text \<open>\<open>API[name](...)\<close> for a level function's name (\<open>debug\<close>, \<open>info\<close>, ...); calling a
  property that is not there raises a \<open>TypeError\<close>.\<close>

definition call_level ::
    "nat \<Rightarrow> env \<Rightarrow> world \<Rightarrow> ambient \<Rightarrow> nat \<Rightarrow> string \<Rightarrow> val list \<Rightarrow> (exn option \<times> event list) option" where
  "call_level fuel h w a i name arguments =
     (case map_of (level_fns (loggers w i)) name of
        None \<Rightarrow> Some (Some TypeError, [])
      | Some fn \<Rightarrow> invoke fuel h w a i fn arguments)"

text \<open>\<open>logops(options)\<close> with every option given, and \<open>child(localContext)\<close>. The
  constructor ends with \<open>setLevel(opts.level)\<close>, whose exception it passes on.\<close>

record opts =
  o_level :: val
  o_getContext :: getter
  o_format :: formatter
  o_stream :: nat

definition logops :: "world \<Rightarrow> opts \<Rightarrow> exn + (nat \<times> world)" where
  "logops w options =
     (let API = \<lparr>opts_level = o_level options, stream = o_stream options,
                 getContext = o_getContext options, format = o_format options,
                 level_fns = []\<rparr>
      in case setLevel (o_level options) API of
           (Some e, API') \<Rightarrow> Inl e
         | (None, API') \<Rightarrow>
             Inr (next_logger w,
                  w\<lparr>loggers := (loggers w)(next_logger w := API'),
                    next_logger := Suc (next_logger w)\<rparr>))"

definition child :: "world \<Rightarrow> nat \<Rightarrow> val \<Rightarrow> exn + (nat \<times> world)" where
  "child w i localContext =
     logops w
       \<lparr>o_level = getLevel (loggers w i),
        o_getContext = Child_getter i localContext,
        o_format = format (loggers w i),
        o_stream = stream (loggers w i)\<rparr>"

section \<open>The test-suite's setting\<close>

text \<open>
  The pipe-format tests run the default instance with the clock stopped at the epoch, the
  pipe formatter and a context getter that returns \<open>{}\<close>. The surroundings below stand
  in for Node and the packages: of the clock only the epoch is ever rendered, \<open>chalk\<close>
  applies no style, \<open>serr(e).toString()\<close> is \<open>'' + e\<close>, \<open>serr(e).toObject()\<close> holds
  the message, the name and the constructor's name of \<open>e\<close>, and the conversions left to
  the surroundings answer with fixed texts.
\<close>

definition test_env :: env where
  "test_env =
     \<lparr>now = 0,
      notAvailable = VStr DEFAULT_NOT_AVAILABLE,
      stacktracesWith = [''ERROR'', ''FATAL''],
      omit = [],
      toISOString = (\<lambda>t. ''1970-01-01T00:00:00.000Z''),
      str_ext = (\<lambda>v. ''[object Object]''),
      format_ext = (\<lambda>vs. []),
      inspect = (\<lambda>v. ''{}''),
      chalk = (\<lambda>style s. s),
      serr_toString = (\<lambda>e stack. to_string_err e),
      serr_toObject = (\<lambda>e stack. [(''message'', get_prop e ''message''), (''name'', get_prop e ''name''),
                                 (''constructor'', get_prop e ''name'')])\<rparr>"

definition test_logger :: logger where
  "test_logger =
     snd (setLevel (VStr DEFAULT_LEVEL)
            \<lparr>opts_level = VStr DEFAULT_LEVEL, stream = 1,
              getContext = Host_getter (\<lambda>a. VObj []), format = formatTrace,
              level_fns = []\<rparr>)"

definition test_world :: world where
  "test_world = \<lparr>loggers = (\<lambda>i. test_logger), next_logger = 1\<rparr>"

section \<open>Auxiliary facts\<close>


lemma array_index_names:
  "array_index ''msg'' = None" "array_index ''time'' = None" "array_index ''lvl'' = None"
  "array_index ''err'' = None" "array_index ''corr'' = None" "array_index ''trans'' = None"
  "array_index ''op'' = None" "array_index ''debug'' = None" "array_index ''info'' = None"
  "array_index ''warn'' = None" "array_index ''error'' = None" "array_index ''fatal'' = None"
  "array_index ''hostname'' = None" "array_index ''n'' = None"
  by code_simp+

lemma map_of_update_prop:
  "map_of (update_prop kvs k v) k' = (if k' = k \<and> map_of kvs k \<noteq> None then Some v else map_of kvs k')"
proof (induction kvs)
  case Nil
  show ?case by simp
next
  case (Cons p ps)
  obtain a b where p: "p = (a, b)" by (cases p)
  show ?case unfolding p using Cons.IH by auto
qed

lemma map_of_place:
  "map_of (place n (k, v) kvs) k' = (if k' = k then Some v else map_of kvs k')"
  if "k \<notin> fst ` set kvs"
  using that
proof (induction kvs)
  case Nil
  show ?case by simp
next
  case (Cons p ps)
  obtain a b where p: "p = (a, b)" by (cases p)
  from Cons.prems have n: "k \<notin> fst ` set ps" and ne: "a \<noteq> k" by (auto simp: p)
  show ?case unfolding p using Cons.IH[OF n] ne by (auto split: option.splits)
qed

lemma map_of_append_new:
  "k \<notin> fst ` set kvs \<Longrightarrow> map_of (kvs @ [(k, v)]) k' = (if k' = k then Some v else map_of kvs k')"
  by (auto simp: map_add_def map_of_eq_None_iff[symmetric] split: option.splits)

lemma map_of_set_prop:
  "map_of (set_prop kvs k v) k' = (if k' = k then Some v else map_of kvs k')"
proof (cases "k \<in> fst ` set kvs")
  case True
  then have "map_of kvs k \<noteq> None" by (simp add: map_of_eq_None_iff)
  with True show ?thesis by (simp add: set_prop_def map_of_update_prop)
next
  case False
  then show ?thesis
    by (cases "array_index k") (simp_all add: set_prop_def map_of_place map_of_append_new del: map_of_append)
qed

lemma fst_update_prop: "k \<in> fst ` set kvs \<Longrightarrow> fst ` set (update_prop kvs k v) = fst ` set kvs"
proof (induction kvs)
  case Nil
  then show ?case by simp
next
  case (Cons p ps)
  obtain a b where p: "p = (a, b)" by (cases p)
  show ?case
  proof (cases "a = k")
    case True
    then show ?thesis by (simp add: p)
  next
    case False
    with Cons.prems have "k \<in> fst ` set ps" by (auto simp: p)
    from Cons.IH[OF this] False show ?thesis by (simp add: p)
  qed
qed

lemma fst_place: "fst ` set (place n (k, v) kvs) = insert k (fst ` set kvs)"
proof (induction kvs)
  case Nil
  show ?case by simp
next
  case (Cons p ps)
  obtain a b where p: "p = (a, b)" by (cases p)
  show ?case unfolding p using Cons.IH by (auto split: option.splits)
qed

lemma fst_set_prop: "fst ` set (set_prop kvs k v) = insert k (fst ` set kvs)"
  by (auto simp: set_prop_def fst_update_prop fst_place split: option.splits)




lemma set_prop_update: "k \<in> fst ` set kvs \<Longrightarrow> set_prop kvs k v = update_prop kvs k v"
  by (simp add: set_prop_def)

lemma set_prop_append:
  "k \<notin> fst ` set kvs \<Longrightarrow> array_index k = None \<Longrightarrow> set_prop kvs k v = kvs @ [(k, v)]"
  by (simp add: set_prop_def)

lemmas set_prop_names = set_prop_update set_prop_append array_index_names

lemma map_of_fold_set_prop:
  "map_of (fold (\<lambda>k r. set_prop r k (f k)) ks res) k' =
     (if k' \<in> set ks then Some (f k') else map_of res k')"
  by (induction ks arbitrary: res) (auto simp: map_of_set_prop)

lemma own_keys: "(own obj k = None) = (k \<notin> set (keys obj))"
  by (simp add: own_def keys_def map_of_eq_None_iff)

lemma get_prop_own: "own obj k = Some v \<Longrightarrow> get_prop obj k = v"
  by (cases obj) (simp_all add: get_prop_def own_def)

lemma map_of_copy_props:
  "map_of (copy_props obj res) k = (case own obj k of Some v \<Rightarrow> Some v | None \<Rightarrow> map_of res k)"
proof (cases "own obj k")
  case None
  then have "k \<notin> set (keys obj)" using own_keys[of obj k] by simp
  with None show ?thesis by (simp add: copy_props_def map_of_fold_set_prop)
next
  case (Some v)
  then have "k \<in> set (keys obj)" using own_keys[of obj k] by auto
  with Some show ?thesis by (simp add: copy_props_def map_of_fold_set_prop get_prop_own)
qed

lemma own_merge:
  "own (merge a b) k = (case own b k of Some v \<Rightarrow> Some v | None \<Rightarrow> own a k)"
  by (simp add: merge_def own_def[of "VObj _"] map_of_copy_props split: option.splits)


lemma lower_levels:
  "toLowerCase ''DEBUG'' = ''debug''" "toLowerCase ''INFO'' = ''info''"
  "toLowerCase ''WARN'' = ''warn''" "toLowerCase ''ERROR'' = ''error''"
  "toLowerCase ''FATAL'' = ''fatal''"
  by code_simp+

lemma indexOf_levels:
  "indexOf levels ''DEBUG'' = 0" "indexOf levels ''INFO'' = 1" "indexOf levels ''WARN'' = 2"
  "indexOf levels ''ERROR'' = 3" "indexOf levels ''FATAL'' = 4"
  by (simp_all add: levels_def)

lemma indexOf_ge: "- 1 \<le> indexOf xs x"
  by (induction xs) (auto simp: Let_def)

lemma indexOf_notin: "x \<notin> set xs \<Longrightarrow> indexOf xs x = - 1"
  by (induction xs) (auto simp: Let_def)

lemma setLevel_string:
  "setLevel (VStr s) API =
     (None, API\<lparr>opts_level := VStr s,
               level_fns := fold (\<lambda>logLevel fns.
                          set_prop fns (toLowerCase logLevel)
                            (if indexOf levels (toUpperCase s) \<le> indexOf levels logLevel then LogWrap logLevel else Noop))
                    levels (level_fns API)\<rparr>)"
  by (simp add: setLevel_def Let_def)

lemma setLevel_fns:
  assumes "S \<in> set levels"
  shows "map_of (level_fns (snd (setLevel (VStr s) API))) (toLowerCase S) =
         Some (if indexOf levels (toUpperCase s) \<le> indexOf levels S then LogWrap S else Noop)"
proof -
  from assms consider "S = ''DEBUG''" | "S = ''INFO''" | "S = ''WARN''" | "S = ''ERROR''" | "S = ''FATAL''"
    by (auto simp: levels_def)
  then show ?thesis
    by cases (simp_all add: setLevel_string levels_def[of] lower_levels map_of_set_prop del: indexOf.simps)
qed

lemma setLevel_frame:
  "getContext (snd (setLevel lv API)) = getContext API"
  "format (snd (setLevel lv API)) = format API"
  "stream (snd (setLevel lv API)) = stream API"
  "opts_level (snd (setLevel lv API)) = lv"
  by (auto simp: setLevel_def Let_def split: val.splits)

lemma call_getter_cong:
  "(\<And>j. getContext (ls j) = getContext (ls' j)) \<Longrightarrow> call_getter n ls a g = call_getter n ls' a g"
proof (induction n arbitrary: g)
  case 0
  show ?case by simp
next
  case (Suc n)
  show ?case
  proof (cases g)
    case (Host_getter f)
    then show ?thesis by simp
  next
    case (Child_getter p c)
    then show ?thesis using Suc.IH[of "getContext (ls p)"] Suc.prems by simp
  qed
qed

lemma logWrap_cong:
  assumes "loggers w2 c = loggers w1 c" and "\<And>j. getContext (loggers w2 j) = getContext (loggers w1 j)"
  shows "logWrap fuel h w2 a c level args = logWrap fuel h w1 a c level args"
  using assms(1) call_getter_cong[of "loggers w2" "loggers w1", OF assms(2)]
  by (simp add: logWrap_def)

lemma call_level_cong:
  assumes "loggers w2 c = loggers w1 c" and "\<And>j. getContext (loggers w2 j) = getContext (loggers w1 j)"
  shows "call_level fuel h w2 a c name args = call_level fuel h w1 a c name args"
proof -
  have "invoke fuel h w2 a c fn args = invoke fuel h w1 a c fn args" for fn
    by (cases fn) (simp_all add: logWrap_cong[OF assms])
  then show ?thesis by (simp add: call_level_def assms(1) split: option.splits)
qed

lemma upper_samples:
  "toUpperCase ''INFO'' = ''INFO''" "toUpperCase ''verbose'' = ''VERBOSE''"
  "toUpperCase ''warn'' = ''WARN''"
  by code_simp+

lemma test_logger_eq:
  "test_logger =
     \<lparr>opts_level = VStr ''INFO'', stream = 1, getContext = Host_getter (\<lambda>a. VObj []),
       format = formatTrace,
       level_fns = [(''debug'', Noop), (''info'', LogWrap ''INFO''), (''warn'', LogWrap ''WARN''),
                    (''error'', LogWrap ''ERROR''), (''fatal'', LogWrap ''FATAL'')]\<rparr>"
  by (simp add: test_logger_def DEFAULT_LEVEL_def setLevel_string upper_samples lower_levels levels_def
        set_prop_append array_index_names)

lemma formatTrace_args_empty_context:
  "formatTrace_args h level (VObj []) message args err =
     (VStr (''time='' @ toISOString h (now h) @ '' | lvl='' @ level
            @ '' | corr='' @ to_string h (notAvailable h)
            @ '' | trans='' @ to_string h (notAvailable h)
            @ '' | op='' @ to_string h (notAvailable h)
            @ '' | msg='' @ to_string h (if instanceof_Date message \<or> instanceof_Error message
               then VStr (util_format h [message]) else message)) # args)
     @ (if truthy err \<and> message \<noteq> VStr (to_string h err) then [err] else [])"
  by (simp add: formatTrace_args_def formatTrace_recontext_def keys_def get_prop_def own_def
        js_or_def Let_def set_prop_append array_index_names)

lemma formatTrace_empty_context:
  "formatTrace h level (VObj []) message args err =
     Inr (util_format h
       ((VStr (''time='' @ toISOString h (now h) @ '' | lvl='' @ level
               @ '' | corr='' @ to_string h (notAvailable h)
               @ '' | trans='' @ to_string h (notAvailable h)
               @ '' | op='' @ to_string h (notAvailable h)
               @ '' | msg='' @ to_string h (if instanceof_Date message \<or> instanceof_Error message
                  then VStr (util_format h [message]) else message)) # args)
        @ (if truthy err \<and> message \<noteq> VStr (to_string h err) then [err] else [])))"
  by (simp only: formatTrace_def formatTrace_args_empty_context loose_null.simps if_False)

lemma test_pipe:
  "formatTrace test_env level (VObj []) (VStr s) [] VUndefined =
     Inr (''time=1970-01-01T00:00:00.000Z | lvl='' @ level @ '' | corr=n/a | trans=n/a | op=n/a | msg='' @ s)"
  by (simp add: formatTrace_empty_context test_env_def DEFAULT_NOT_AVAILABLE_def)

lemma js_or_not_null: "\<not> loose_null (js_or ctx (VObj []))"
  by (cases ctx) (simp_all add: js_or_def)

lemma logWrap_host:
  "getContext (loggers w i) = Host_getter f \<Longrightarrow>
   logWrap (Suc fuel) h w a i level arguments =
     (let r = resolve (f a) arguments; c = js_or (r_context r) (VObj [])
      in case format (loggers w i) h level c (r_message r) (r_args r) (r_err r) of
           Inl e \<Rightarrow> Some (Some e, [Formatted level c (r_message r) (r_args r) (r_err r)])
         | Inr trace \<Rightarrow>
             Some (None, [Formatted level c (r_message r) (r_args r) (r_err r),
                          Written (stream (loggers w i)) (trace @ [CHR 0x0A])]))"
  by (simp add: logWrap_def Let_def)

lemma logWrap_shape:
  assumes "logWrap fuel h w a i level arguments = Some (None, evs)"
  shows "\<exists>c m as e t. format (loggers w i) h level c m as e = Inr t
           \<and> evs = [Formatted level c m as e, Written (stream (loggers w i)) (t @ [CHR 0x0A])]"
  using assms
  by (auto simp: logWrap_def Let_def split: option.splits sum.splits)

lemma warn_world:
  "loggers (snd (setLevel_at test_world 0 (VStr ''warn''))) 0 =
     test_logger\<lparr>opts_level := VStr ''warn'',
        level_fns := [(''debug'', Noop), (''info'', Noop),
                      (''warn'', LogWrap ''WARN''), (''error'', LogWrap ''ERROR''),
                      (''fatal'', LogWrap ''FATAL'')]\<rparr>"
  by (simp add: setLevel_at_def test_world_def test_logger_eq setLevel_string upper_samples lower_levels levels_def set_prop_names)

lemma verbose_unrecognized: "toUpperCase ''verbose'' \<notin> set levels"
  by (simp add: upper_samples levels_def)

lemma test_world_0: "loggers test_world i = test_logger"
  by (simp add: test_world_def)

lemma test_env_fields:
  "now test_env = 0" "notAvailable test_env = VStr ''n/a''"
  "toISOString test_env t = ''1970-01-01T00:00:00.000Z''"
  "stacktracesWith test_env = [''ERROR'', ''FATAL'']"
  by (simp_all add: test_env_def DEFAULT_NOT_AVAILABLE_def)

lemma call_info_test_world:
  "call_level (Suc fuel) h test_world a 0 ''info'' arguments =
     (let r = resolve (VObj []) arguments; c = js_or (r_context r) (VObj [])
      in case formatTrace h ''INFO'' c (r_message r) (r_args r) (r_err r) of
           Inl e \<Rightarrow> Some (Some e, [Formatted ''INFO'' c (r_message r) (r_args r) (r_err r)])
         | Inr trace \<Rightarrow>
             Some (None, [Formatted ''INFO'' c (r_message r) (r_args r) (r_err r),
                          Written 1 (trace @ [CHR 0x0A])]))"
proof -
  have g: "getContext (loggers test_world 0) = Host_getter (\<lambda>a. VObj [])"
    and f: "format (loggers test_world 0) = formatTrace"
    and st: "stream (loggers test_world 0) = 1"
    and lf: "map_of (level_fns (loggers test_world 0)) ''info'' = Some (LogWrap ''INFO'')"
    by (simp_all add: test_world_0 test_logger_eq)
  show ?thesis
    by (simp add: call_level_def lf logWrap_host[OF g] f st Let_def split: sum.splits)
qed

lemma formatTrace_shape:
  "formatTrace h level (js_or ctx (VObj [])) message args err =
     Inr (util_format h
            (VStr (join '' | '' (map (\<lambda>(key, v). key @ ''='' @ to_string h v)
                                  (formatTrace_recontext h level (js_or ctx (VObj [])) message)))
             # args @ (if truthy err \<and> message \<noteq> VStr (to_string h err) then [err] else [])))"
  by (simp add: formatTrace_def formatTrace_args_def js_or_not_null Let_def)

lemma msg_recontext:
  "map_of (formatTrace_recontext h level context message) ''msg'' =
     Some (if instanceof_Date message \<or> instanceof_Error message
           then VStr (util_format h [message]) else message)"
  by (simp add: formatTrace_recontext_def Let_def map_of_set_prop)

lemma msg_toObject:
  "map_of (formatJsonTrace_toObject h level context message args err) ''msg''
     = Some (VStr (util_format h (message # args)))"
  by (simp add: formatJsonTrace_toObject_def Let_def map_of_set_prop)


lemma formatDevTrace_undefined:
  "formatDevTrace h level context VUndefined [] VUndefined =
     Inr (reindent (to_string h (level_token h level) @ '' undefined''
            @ (if keys (lodash_omit context (omit h)) \<noteq> []
               then '' '' @ colorize h ''gray'' (inspect h (lodash_omit context (omit h)))
               else [])))"
  by (simp add: formatDevTrace_def Let_def)






lemma serializable_ensureProperties: "serializable (ensureProperties dt v) = serializable v"
  by (induction dt v rule: ensureProperties.induct) (auto simp: list_all_iff)

lemma safeStringify_unserializable:
  "\<not> serializable (VObj obj) \<Longrightarrow> safeStringify h obj = Inl TypeError"
  using serializable_ensureProperties[of "toISOString h" "VObj obj"]
  by (simp add: safeStringify_def JSON_stringify_def)

lemma formatJsonTrace_stringify_eq:
  "formatJsonTrace_stringify h obj =
     (if serializable (VObj obj)
      then Inr (json_text h (JObj (json_members (toISOString h) obj)))
      else Inl TypeError)"
  by (simp add: formatJsonTrace_stringify_def JSON_stringify_def json_members_def
        safeStringify_unserializable)





lemma child_eq:
  assumes "opts_level (loggers w i) = VStr s"
  shows "child w i localContext =
     Inr (next_logger w,
          w\<lparr>loggers := (loggers w)(next_logger w :=
                snd (setLevel (VStr s)
                  \<lparr>opts_level = VStr s, stream = stream (loggers w i),
                    getContext = Child_getter i localContext, format = format (loggers w i),
                    level_fns = []\<rparr>)),
            next_logger := Suc (next_logger w)\<rparr>)"
  by (simp add: child_def logops_def getLevel_def assms setLevel_string Let_def)

lemma dotless_info: "toUpperCase ([CHR 0xC4, CHR 0xB1] @ ''nfo'') = ''INFO''"
  by code_simp


lemma logWrap_child:
  assumes "getContext (loggers w c) = Child_getter i localContext"
      and "getContext (loggers w i) = Host_getter f"
  shows "logWrap (Suc (Suc fuel)) h w a c level arguments =
     (case format (loggers w c) h level
             (js_or (r_context (resolve (merge (f a) localContext) arguments)) (VObj []))
             (r_message (resolve (merge (f a) localContext) arguments))
             (r_args (resolve (merge (f a) localContext) arguments))
             (r_err (resolve (merge (f a) localContext) arguments)) of
        Inl e \<Rightarrow>
          Some (Some e,
            [Formatted level
               (js_or (r_context (resolve (merge (f a) localContext) arguments)) (VObj []))
               (r_message (resolve (merge (f a) localContext) arguments))
               (r_args (resolve (merge (f a) localContext) arguments))
               (r_err (resolve (merge (f a) localContext) arguments))])
      | Inr trace \<Rightarrow>
          Some (None,
            [Formatted level
               (js_or (r_context (resolve (merge (f a) localContext) arguments)) (VObj []))
               (r_message (resolve (merge (f a) localContext) arguments))
               (r_args (resolve (merge (f a) localContext) arguments))
               (r_err (resolve (merge (f a) localContext) arguments)),
             Written (stream (loggers w c)) (trace @ [CHR 0x0A])]))"
  by (simp add: logWrap_def Let_def assms)

lemma test_pipe_hostname:
  "formatTrace test_env level (VObj [(''hostname'', VStr ''host.local'')]) (VStr s) [] VUndefined =
     Inr (''time=1970-01-01T00:00:00.000Z | lvl='' @ level
          @ '' | corr=n/a | trans=n/a | op=n/a | hostname=host.local | msg='' @ s)"
  by (simp add: formatTrace_def formatTrace_args_def formatTrace_recontext_def keys_def get_prop_def
        own_def js_or_def Let_def is_Function_def set_prop_names test_env_fields)

lemma test_pipe_corr_hostname:
  "formatTrace test_env level (VObj [(''corr'', VStr ''x''), (''hostname'', VStr ''host.local'')])
       (VStr s) [] VUndefined =
     Inr (''time=1970-01-01T00:00:00.000Z | lvl='' @ level
          @ '' | corr=x | trans=n/a | op=n/a | hostname=host.local | msg='' @ s)"
  by (simp add: formatTrace_def formatTrace_args_def formatTrace_recontext_def keys_def get_prop_def
        own_def js_or_def Let_def is_Function_def set_prop_names test_env_fields)

lemma test_merges:
  "merge (VObj []) (VObj [(''hostname'', VStr ''host.local'')]) = VObj [(''hostname'', VStr ''host.local'')]"
  "merge (VObj [(''corr'', VStr ''x'')]) (VObj [(''hostname'', VStr ''host.local'')])
     = VObj [(''corr'', VStr ''x''), (''hostname'', VStr ''host.local'')]"
  by (simp_all add: merge_def copy_props_def keys_def get_prop_def own_def set_prop_names)

lemma resolve_message:
  "resolve ctx [VStr s] = \<lparr>r_context = ctx, r_message = VStr s, r_args = [], r_err = VUndefined\<rparr>"
  by (simp add: resolve_def classify_def arg_def)

lemma js_or_merge: "js_or (merge a b) d = merge a b"
  by (simp add: js_or_def merge_def)

lemma setLevel_at_other: "c \<noteq> i \<Longrightarrow> loggers (snd (setLevel_at w i lv)) c = loggers w c"
  by (simp add: setLevel_at_def split: prod.splits)

lemma setLevel_at_getContext:
  "getContext (loggers (snd (setLevel_at w i lv)) j) = getContext (loggers w j)"
  using setLevel_frame(1)[of lv "loggers w i"]
  by (auto simp: setLevel_at_def split: prod.splits)

section \<open>The claims\<close>

subsection \<open>C1: \<open>setLevel\<close> with an unrecognized name\<close>

text \<open>
  Claim C1, as stated, says that \<open>setLevel\<close> fails for a name that is not a level.
  \<open>setLevel('verbose')\<close> on the default instance returns without an exception, stores
  the name and binds all five level functions to \<open>logWrap\<close>.
\<close>

theorem setLevel_unrecognized_counterexample:
  "setLevel (VStr ''verbose'') test_logger =
     (None, test_logger\<lparr>opts_level := VStr ''verbose'',
        level_fns := [(''debug'', LogWrap ''DEBUG''), (''info'', LogWrap ''INFO''),
                      (''warn'', LogWrap ''WARN''), (''error'', LogWrap ''ERROR''),
                      (''fatal'', LogWrap ''FATAL'')]\<rparr>)"
  by (simp add: test_logger_eq setLevel_string upper_samples lower_levels levels_def set_prop_names)

text \<open>
  Claim C1, amended. For every string \<open>s\<close>, \<open>setLevel(s)\<close> raises nothing and
  \<open>getLevel()\<close> then returns \<open>s\<close> as it was passed; when \<open>s.toUpperCase()\<close> is not a
  level name, \<open>indexOf\<close> is \<open>-1\<close> and every level function is enabled.
\<close>

theorem setLevel_accepts_every_string:
  "fst (setLevel (VStr s) API) = None
   \<and> getLevel (snd (setLevel (VStr s) API)) = VStr s
   \<and> (toUpperCase s \<notin> set levels \<longrightarrow>
        (\<forall>S \<in> set levels.
           map_of (level_fns (snd (setLevel (VStr s) API))) (toLowerCase S) = Some (LogWrap S)))"
proof -
  have "map_of (level_fns (snd (setLevel (VStr s) API))) (toLowerCase S) = Some (LogWrap S)"
    if "toUpperCase s \<notin> set levels" and "S \<in> set levels" for S
    using setLevel_fns[OF that(2), of s API] indexOf_notin[OF that(1)] indexOf_ge[of levels S]
    by simp
  then show ?thesis
    by (simp add: setLevel_string getLevel_def)
qed

text \<open>Claim C1, amended, at the name \<open>verbose\<close>.\<close>

theorem setLevel_accepts_every_string_witness:
  "toUpperCase ''verbose'' \<notin> set levels
   \<and> fst (setLevel (VStr ''verbose'') test_logger) = None
   \<and> getLevel (snd (setLevel (VStr ''verbose'') test_logger)) = VStr ''verbose''
   \<and> map_of (level_fns (snd (setLevel (VStr ''verbose'') test_logger))) ''debug''
       = Some (LogWrap ''DEBUG'')"
  using setLevel_accepts_every_string[of "''verbose''" test_logger] verbose_unrecognized
  by (auto simp: levels_def lower_levels)

subsection \<open>C2: a date as the only argument\<close>

text \<open>
  Claim C2, as stated, says that a call whose only argument is a date is never
  context-led. The resolver tests \<open>instanceof Error\<close> only: the call with the date of the
  epoch is classified as context-led.
\<close>

theorem sole_date_is_context_led_counterexample:
  "classify [VDate 0] = ContextLed"
  by (simp add: classify_def arg_def)

text \<open>
  Claim C2, amended. A call whose only argument is a date \<open>d\<close> is context-led: the
  context is \<open>merge(getContext(), d)\<close>, which is the merge with an empty object since a
  date has no enumerable property; the message is \<open>undefined\<close>, there are no args and no
  cause. Of the two, only an error as the only argument is special-cased.
\<close>

theorem sole_date_is_context_led:
  "classify [VDate d] = ContextLed
   \<and> resolve ctx [VDate d] =
       \<lparr>r_context = merge ctx (VDate d), r_message = VUndefined, r_args = [], r_err = VUndefined\<rparr>
   \<and> merge ctx (VDate d) = merge ctx (VObj [])
   \<and> classify [VErr n m] = ErrorLed"
  by (simp add: resolve_def classify_def arg_def merge_def copy_props_def keys_def)

subsection \<open>C3: an error as first argument\<close>

text \<open>
  Claim C3. A level call whose first argument is an error \<open>e\<close>: alone, it resolves to
  cause \<open>e\<close>, message \<open>e.name + ': ' + e.message\<close> and no args; followed by further
  arguments, to cause \<open>e\<close>, the second argument as message and the rest as args. The
  context is the ambient one in both cases.
\<close>

theorem error_led_record:
  "resolve ctx [VErr n m] =
     \<lparr>r_context = ctx, r_message = VStr (n @ '': '' @ m), r_args = [], r_err = VErr n m\<rparr>
   \<and> resolve ctx (VErr n m # x # rest) =
     \<lparr>r_context = ctx, r_message = x, r_args = rest, r_err = VErr n m\<rparr>"
  by (simp add: resolve_def classify_def arg_def)

subsection \<open>C4: the level gate\<close>

text \<open>
  Claim C4. After \<open>setLevel(L)\<close>, calling the function of a severity \<open>S\<close> is
  \<open>logWrap(S)\<close> when \<open>index(L) \<le> index(S)\<close> and otherwise does nothing: no formatter
  invocation, no write. A call of \<open>logWrap(S)\<close> that completes has invoked the formatter
  once and written its line followed by a newline once; with a context getter of the
  surroundings the call returns.
\<close>

theorem level_gate:
  assumes "S \<in> set levels"
  shows "fst (setLevel_at w i (VStr L)) = None
    \<and> call_level fuel h (snd (setLevel_at w i (VStr L))) a i (toLowerCase S) arguments =
        (if indexOf levels (toUpperCase L) \<le> indexOf levels S
         then logWrap fuel h (snd (setLevel_at w i (VStr L))) a i S arguments
         else Some (None, []))
    \<and> (\<forall>evs. logWrap fuel h w' a j S arguments = Some (None, evs) \<longrightarrow>
         (\<exists>c m as e t. format (loggers w' j) h S c m as e = Inr t
            \<and> evs = [Formatted S c m as e, Written (stream (loggers w' j)) (t @ [CHR 0x0A])]))
    \<and> (\<forall>f. getContext (loggers w' j) = Host_getter f \<longrightarrow>
         logWrap (Suc fuel) h w' a j S arguments \<noteq> None)"
proof -
  have w: "setLevel_at w i (VStr L) =
             (None, w\<lparr>loggers := (loggers w)(i := snd (setLevel (VStr L) (loggers w i)))\<rparr>)"
    by (simp add: setLevel_at_def setLevel_string)
  have "call_level fuel h (snd (setLevel_at w i (VStr L))) a i (toLowerCase S) arguments =
        (if indexOf levels (toUpperCase L) \<le> indexOf levels S
         then logWrap fuel h (snd (setLevel_at w i (VStr L))) a i S arguments
         else Some (None, []))"
    using setLevel_fns[OF assms, of L "loggers w i"]
    by (simp add: w call_level_def)
  moreover have "logWrap (Suc fuel) h w' a j S arguments \<noteq> None"
    if "getContext (loggers w' j) = Host_getter f" for f
    by (simp add: logWrap_host[OF that] Let_def split: sum.splits)
  ultimately show ?thesis
    using logWrap_shape[of fuel h w' a j S arguments]
    by (simp add: w)
qed

text \<open>Claim C4 on the default instance: after \<open>setLevel('warn')\<close>, \<open>info\<close> is disabled
  and \<open>error\<close> writes one line; after \<open>setLevel\<close> with the name spelt with a dotless i
  (U+0131), whose upper case is \<open>INFO\<close>, \<open>debug\<close> is disabled.\<close>

theorem level_gate_witness:
  "''INFO'' \<in> set levels \<and> ''ERROR'' \<in> set levels \<and> ''DEBUG'' \<in> set levels
   \<and> call_level 1 test_env (snd (setLevel_at test_world 0 (VStr ''warn''))) 0 0 ''info'' [VStr ''hi'']
       = Some (None, [])
   \<and> call_level 1 test_env (snd (setLevel_at test_world 0 (VStr ''warn''))) 0 0 ''error'' [VStr ''hi'']
       = Some (None,
           [Formatted ''ERROR'' (VObj []) (VStr ''hi'') [] VUndefined,
            Written 1 (''time=1970-01-01T00:00:00.000Z | lvl=ERROR | corr=n/a | trans=n/a | op=n/a | msg=hi''
                       @ [CHR 0x0A])])
   \<and> call_level 1 test_env
         (snd (setLevel_at test_world 0 (VStr ([CHR 0xC4, CHR 0xB1] @ ''nfo'')))) 0 0 ''debug'' [VStr ''hi'']
       = Some (None, [])"
proof -
  have l: "''INFO'' \<in> set levels" "''ERROR'' \<in> set levels" "''DEBUG'' \<in> set levels"
    by (simp_all add: levels_def)
  have g: "getContext (loggers (snd (setLevel_at test_world 0 (VStr ''warn''))) 0) = Host_getter (\<lambda>a. VObj [])"
    by (simp add: warn_world test_logger_eq)
  have e: "logWrap 1 test_env (snd (setLevel_at test_world 0 (VStr ''warn''))) 0 0 ''ERROR'' [VStr ''hi'']
       = Some (None,
           [Formatted ''ERROR'' (VObj []) (VStr ''hi'') [] VUndefined,
            Written 1 (''time=1970-01-01T00:00:00.000Z | lvl=ERROR | corr=n/a | trans=n/a | op=n/a | msg=hi''
                       @ [CHR 0x0A])])"
    using logWrap_host[OF g, of 0 test_env 0 "''ERROR''" "[VStr ''hi'']"]
    by (simp add: warn_world test_logger_eq resolve_def classify_def arg_def js_or_def test_pipe)
  have d: "call_level 1 test_env
         (snd (setLevel_at test_world 0 (VStr ([CHR 0xC4, CHR 0xB1] @ ''nfo'')))) 0 0 ''debug'' [VStr ''hi'']
       = Some (None, [])"
    using level_gate[OF l(3), of test_world 0 "[CHR 0xC4, CHR 0xB1] @ ''nfo''" 1 test_env 0 "[VStr ''hi'']"]
          dotless_info
    by (simp add: lower_levels indexOf_levels)
  show ?thesis
    using level_gate[OF l(1), of test_world 0 "''warn''" 1 test_env 0 "[VStr ''hi'']"]
          level_gate[OF l(2), of test_world 0 "''warn''" 1 test_env 0 "[VStr ''hi'']"]
          l e d
    by (simp add: upper_samples lower_levels indexOf_levels)
qed

subsection \<open>C5: \<open>merge\<close> is right-biased and returns a new object\<close>



subsection \<open>C6: the document of the JSON formatter\<close>



subsection \<open>C7: the fallback encoder\<close>

text \<open>
  Claim C7 says that \<open>formatJsonTrace\<close> never raises. With the context \<open>{n: 10n}\<close>,
  \<open>JSON.stringify\<close> raises a \<open>TypeError\<close> for the \<open>BigInt\<close>; the \<open>catch\<close> calls
  \<open>safeStringify\<close>, whose \<open>ensureProperties\<close> keeps the leaf and whose \<open>JSON.stringify\<close>
  raises again, outside any \<open>try\<close>: the formatter raises, whatever the level, the message
  and the arguments.
\<close>

theorem structured_formatter_raises:
  "formatJsonTrace h level (VObj [(''n'', VBigInt 10)]) message args VUndefined = Inl TypeError"
proof -
  have "map_of (formatJsonTrace_toObject h level (VObj [(''n'', VBigInt 10)]) message args VUndefined) ''n''
          = Some (VBigInt 10)"
    by (simp add: formatJsonTrace_toObject_def Let_def map_of_set_prop map_of_copy_props own_def)
  then have "(''n'', VBigInt 10) \<in> set (formatJsonTrace_toObject h level (VObj [(''n'', VBigInt 10)]) message args VUndefined)"
    by (rule map_of_SomeD)
  then have "\<not> serializable (VObj (formatJsonTrace_toObject h level (VObj [(''n'', VBigInt 10)]) message args VUndefined))"
    by (force simp: list_all_iff)
  then show ?thesis
    by (simp add: formatJsonTrace_def formatJsonTrace_stringify_eq)
qed

subsection \<open>C8: a call without arguments\<close>

text \<open>
  Claim C8. A level call with no argument resolves to the message \<open>undefined\<close>. Each
  formatter renders it as the text \<open>undefined\<close>: the pipe format as the field
  \<open>msg=undefined\<close>, the dev format as the main message, the JSON format as the \<open>msg\<close>
  string. In the test-suite's setting \<open>info()\<close> writes the line ending in
  \<open>msg=undefined\<close> after the \<open>time\<close>, \<open>lvl\<close>, \<open>corr\<close>, \<open>trans\<close> and \<open>op\<close> fields.
\<close>

theorem zero_arguments_render_undefined:
  "resolve ctx [] = \<lparr>r_context = ctx, r_message = VUndefined, r_args = [], r_err = VUndefined\<rparr>
   \<and> formatTrace h level (js_or ctx (VObj [])) VUndefined [] VUndefined =
       Inr (join '' | '' (map (\<lambda>(key, v). key @ ''='' @ to_string h v)
              (formatTrace_recontext h level (js_or ctx (VObj [])) VUndefined)))
   \<and> map_of (formatTrace_recontext h level (js_or ctx (VObj [])) VUndefined) ''msg'' = Some VUndefined
   \<and> to_string h VUndefined = ''undefined''
   \<and> formatDevTrace h level (js_or ctx (VObj [])) VUndefined [] VUndefined =
       Inr (reindent (to_string h (level_token h level) @ '' undefined''
            @ (if keys (lodash_omit (js_or ctx (VObj [])) (omit h)) \<noteq> []
               then '' '' @ colorize h ''gray'' (inspect h (lodash_omit (js_or ctx (VObj [])) (omit h)))
               else [])))
   \<and> map_of (formatJsonTrace_toObject h level (js_or ctx (VObj [])) VUndefined [] VUndefined) ''msg''
       = Some (VStr ''undefined'')
   \<and> call_level 1 test_env test_world a 0 ''info'' [] =
       Some (None,
         [Formatted ''INFO'' (VObj []) VUndefined [] VUndefined,
          Written 1 (''time=1970-01-01T00:00:00.000Z | lvl=INFO | corr=n/a | trans=n/a | op=n/a | msg=undefined''
                     @ [CHR 0x0A])])"
proof -
  have r: "resolve c [] = \<lparr>r_context = c, r_message = VUndefined, r_args = [], r_err = VUndefined\<rparr>" for c
    by (simp add: resolve_def classify_def arg_def)
  have "call_level 1 test_env test_world a 0 ''info'' [] =
       Some (None,
         [Formatted ''INFO'' (VObj []) VUndefined [] VUndefined,
          Written 1 (''time=1970-01-01T00:00:00.000Z | lvl=INFO | corr=n/a | trans=n/a | op=n/a | msg=undefined''
                     @ [CHR 0x0A])])"
    using call_info_test_world[of 0 test_env a "[]"]
    by (simp add: r js_or_def formatTrace_empty_context test_env_fields)
  then show ?thesis
    by (simp add: r formatTrace_shape msg_recontext msg_toObject formatDevTrace_undefined)
qed

subsection \<open>C9: the cause in the pipe format\<close>

text \<open>
  Claim C9, as stated, says that the cause is appended if and only if its rendered form
  differs from the rendered message. \<open>info(new Error('foo'), ['Error: foo'])\<close> resolves to
  the message \<open>['Error: foo']\<close> and the cause \<open>Error: foo\<close>; both render as
  \<open>Error: foo\<close>, the line reads \<open>msg=Error: foo\<close>, and the cause is appended to the values
  handed to \<open>util.format\<close> all the same.
\<close>

theorem cause_appended_to_equal_text_counterexample:
  "r_message (resolve (VObj []) [VErr ''Error'' ''foo'', VArr [VStr ''Error: foo'']]) = VArr [VStr ''Error: foo'']
   \<and> r_err (resolve (VObj []) [VErr ''Error'' ''foo'', VArr [VStr ''Error: foo'']]) = VErr ''Error'' ''foo''
   \<and> to_string test_env (VArr [VStr ''Error: foo'']) = to_string test_env (VErr ''Error'' ''foo'')
   \<and> formatTrace_args test_env ''INFO'' (VObj []) (VArr [VStr ''Error: foo'']) [] (VErr ''Error'' ''foo'')
       = [VStr ''time=1970-01-01T00:00:00.000Z | lvl=INFO | corr=n/a | trans=n/a | op=n/a | msg=Error: foo'',
          VErr ''Error'' ''foo'']"
  by (simp add: resolve_def classify_def arg_def formatTrace_args_empty_context test_env_fields)

text \<open>
  Claim C9, amended. With an error as cause, the values that \<open>formatTrace\<close> hands to
  \<open>util.format\<close> are the line of fields, the args, and then the cause unless the message
  is itself the string \<open>'' + err\<close> (the test is \<open>message !== '' + err\<close>, on the message
  as a value). In the test-suite's setting \<open>info(new Error('foo'))\<close> writes a line whose
  last field is \<open>msg=Error: foo\<close>, with nothing after it.
\<close>

theorem cause_appended_unless_message_is_its_string:
  "formatTrace_args h level context message args (VErr n m) =
     VStr (join '' | '' (map (\<lambda>(key, v). key @ ''='' @ to_string h v)
                           (formatTrace_recontext h level context message)))
     # args @ (if message = VStr (to_string h (VErr n m)) then [] else [VErr n m])
   \<and> formatTrace h level (js_or ctx (VObj [])) message args err =
       Inr (util_format h (formatTrace_args h level (js_or ctx (VObj [])) message args err))
   \<and> call_level 1 test_env test_world a 0 ''info'' [VErr ''Error'' ''foo''] =
       Some (None,
         [Formatted ''INFO'' (VObj []) (VStr ''Error: foo'') [] (VErr ''Error'' ''foo''),
          Written 1 (''time=1970-01-01T00:00:00.000Z | lvl=INFO | corr=n/a | trans=n/a | op=n/a | msg=Error: foo''
                     @ [CHR 0x0A])])"
proof -
  have "call_level 1 test_env test_world a 0 ''info'' [VErr ''Error'' ''foo''] =
       Some (None,
         [Formatted ''INFO'' (VObj []) (VStr ''Error: foo'') [] (VErr ''Error'' ''foo''),
          Written 1 (''time=1970-01-01T00:00:00.000Z | lvl=INFO | corr=n/a | trans=n/a | op=n/a | msg=Error: foo''
                     @ [CHR 0x0A])])"
    using call_info_test_world[of 0 test_env a "[VErr ''Error'' ''foo'']"]
    by (simp add: resolve_def classify_def arg_def js_or_def formatTrace_empty_context test_env_fields)
  then show ?thesis
    by (simp add: formatTrace_def formatTrace_args_def js_or_not_null Let_def)
qed

subsection \<open>C10: child instances\<close>

text \<open>
  Claim C10. For an instance \<open>i\<close> whose level is a string \<open>s\<close>, \<open>child(localContext)\<close>
  returns a new instance with \<open>i\<close>'s level, formatter and stream as they are at that
  moment: the function of a severity \<open>S\<close> is \<open>logWrap(S)\<close> when
  \<open>index(s) \<le> index(S)\<close> and does nothing otherwise, and an enabled call formats with
  \<open>i\<close>'s formatter of that moment and writes the line and a newline to \<open>i\<close>'s stream of
  that moment, in any later state in which the child is what it was. A later
  \<open>setLevel\<close>, \<open>setFormat\<close> or \<open>setStream\<close> on \<open>i\<close> changes no call of the child's
  level functions. The child's context getter calls \<open>i\<close>'s current getter on each call
  and merges \<open>localContext\<close> over its result, so a later \<open>setContextGetter\<close> on \<open>i\<close>
  does change the child's context; on a shared key \<open>localContext\<close> wins.
\<close>

theorem child_captures:
  assumes "i < next_logger w" and "opts_level (loggers w i) = VStr s"
  shows "\<exists>c w1. child w i localContext = Inr (c, w1)
    \<and> c \<noteq> i
    \<and> loggers w1 i = loggers w i
    \<and> getLevel (loggers w1 c) = getLevel (loggers w i)
    \<and> format (loggers w1 c) = format (loggers w i)
    \<and> stream (loggers w1 c) = stream (loggers w i)
    \<and> getContext (loggers w1 c) = Child_getter i localContext
    \<and> (\<forall>S. S \<in> set levels \<longrightarrow>
          map_of (level_fns (loggers w1 c)) (toLowerCase S)
            = Some (if indexOf levels (toUpperCase s) \<le> indexOf levels S then LogWrap S else Noop))
    \<and> (\<forall>w2 S f fuel h a arguments.
          S \<in> set levels \<longrightarrow> loggers w2 c = loggers w1 c \<longrightarrow>
          getContext (loggers w2 i) = Host_getter f \<longrightarrow>
          call_level (Suc (Suc fuel)) h w2 a c (toLowerCase S) arguments =
            (if indexOf levels (toUpperCase s) \<le> indexOf levels S
             then (case format (loggers w i) h S
                          (js_or (r_context (resolve (merge (f a) localContext) arguments)) (VObj []))
                          (r_message (resolve (merge (f a) localContext) arguments))
                          (r_args (resolve (merge (f a) localContext) arguments))
                          (r_err (resolve (merge (f a) localContext) arguments)) of
                     Inl e \<Rightarrow>
                       Some (Some e,
                         [Formatted S
                            (js_or (r_context (resolve (merge (f a) localContext) arguments)) (VObj []))
                            (r_message (resolve (merge (f a) localContext) arguments))
                            (r_args (resolve (merge (f a) localContext) arguments))
                            (r_err (resolve (merge (f a) localContext) arguments))])
                   | Inr trace \<Rightarrow>
                       Some (None,
                         [Formatted S
                            (js_or (r_context (resolve (merge (f a) localContext) arguments)) (VObj []))
                            (r_message (resolve (merge (f a) localContext) arguments))
                            (r_args (resolve (merge (f a) localContext) arguments))
                            (r_err (resolve (merge (f a) localContext) arguments)),
                          Written (stream (loggers w i)) (trace @ [CHR 0x0A])]))
             else Some (None, [])))
    \<and> (\<forall>lv fuel h a name arguments.
          call_level fuel h (snd (setLevel_at w1 i lv)) a c name arguments
            = call_level fuel h w1 a c name arguments)
    \<and> (\<forall>f fuel h a name arguments.
          call_level fuel h (setFormat w1 i f) a c name arguments
            = call_level fuel h w1 a c name arguments)
    \<and> (\<forall>st fuel h a name arguments.
          call_level fuel h (setStream w1 i st) a c name arguments
            = call_level fuel h w1 a c name arguments)
    \<and> (\<forall>g fuel a.
          call_getter (Suc fuel) (loggers (setContextGetter w1 i g)) a
              (getContext (loggers (setContextGetter w1 i g) c))
            = map_option (\<lambda>v. merge v localContext)
                (call_getter fuel (loggers (setContextGetter w1 i g)) a g))
    \<and> (\<forall>f fuel a.
          call_getter (Suc (Suc fuel)) (loggers (setContextGetter w1 i (Host_getter f))) a
              (getContext (loggers (setContextGetter w1 i (Host_getter f)) c))
            = Some (merge (f a) localContext))
    \<and> (\<forall>v k. own (merge v localContext) k
                 = (case own localContext k of Some x \<Rightarrow> Some x | None \<Rightarrow> own v k))"
proof -
  define c where "c = next_logger w"
  define API where "API = snd (setLevel (VStr s)
                  \<lparr>opts_level = VStr s, stream = stream (loggers w i),
                    getContext = Child_getter i localContext, format = format (loggers w i),
                    level_fns = []\<rparr>)"
  define w1 where "w1 = w\<lparr>loggers := (loggers w)(c := API), next_logger := Suc c\<rparr>"
  have ch: "child w i localContext = Inr (c, w1)"
    by (simp add: child_eq[OF assms(2)] c_def API_def w1_def)
  have ne: "c \<noteq> i" using assms(1) by (simp add: c_def)
  have lc: "loggers w1 c = API" and li: "loggers w1 i = loggers w i"
    using ne by (simp_all add: w1_def)
  have api: "getContext API = Child_getter i localContext" "format API = format (loggers w i)"
    "stream API = stream (loggers w i)" "opts_level API = VStr s"
    by (simp_all add: API_def setLevel_frame)
  have lvl: "call_level fuel h (snd (setLevel_at w1 i lv)) a c name arguments
            = call_level fuel h w1 a c name arguments" for lv fuel h a name arguments
  proof (rule call_level_cong)
    show "loggers (snd (setLevel_at w1 i lv)) c = loggers w1 c"
      using ne by (simp add: setLevel_at_def split: prod.splits)
    show "getContext (loggers (snd (setLevel_at w1 i lv)) j) = getContext (loggers w1 j)" for j
      using setLevel_frame(1)[of lv "loggers w1 i"]
      by (auto simp: setLevel_at_def split: prod.splits)
  qed
  have fmt: "call_level fuel h (setFormat w1 i f) a c name arguments
            = call_level fuel h w1 a c name arguments" for f fuel h a name arguments
    by (rule call_level_cong) (use ne in \<open>simp_all add: setFormat_def\<close>)
  have str: "call_level fuel h (setStream w1 i st) a c name arguments
            = call_level fuel h w1 a c name arguments" for st fuel h a name arguments
    by (rule call_level_cong) (use ne in \<open>simp_all add: setStream_def\<close>)
  have gc: "getContext (loggers (setContextGetter w1 i g) c) = Child_getter i localContext"
    and gi: "getContext (loggers (setContextGetter w1 i g) i) = g" for g
    using ne by (simp_all add: setContextGetter_def lc api)
  have get: "call_getter (Suc fuel) (loggers (setContextGetter w1 i g)) a
              (getContext (loggers (setContextGetter w1 i g) c))
            = map_option (\<lambda>v. merge v localContext)
                (call_getter fuel (loggers (setContextGetter w1 i g)) a g)" for g fuel a
    by (simp add: gc gi split: option.splits)
  have get2: "call_getter (Suc (Suc fuel)) (loggers (setContextGetter w1 i (Host_getter f))) a
              (getContext (loggers (setContextGetter w1 i (Host_getter f)) c))
            = Some (merge (f a) localContext)" for f fuel a
    by (simp add: gc gi)
  have fns: "map_of (level_fns (loggers w1 c)) (toLowerCase S)
            = Some (if indexOf levels (toUpperCase s) \<le> indexOf levels S then LogWrap S else Noop)"
    if "S \<in> set levels" for S
    unfolding lc API_def by (rule setLevel_fns[OF that])
  have call: "call_level (Suc (Suc fuel)) h w2 a c (toLowerCase S) arguments =
            (if indexOf levels (toUpperCase s) \<le> indexOf levels S
             then (case format (loggers w i) h S
                          (js_or (r_context (resolve (merge (f a) localContext) arguments)) (VObj []))
                          (r_message (resolve (merge (f a) localContext) arguments))
                          (r_args (resolve (merge (f a) localContext) arguments))
                          (r_err (resolve (merge (f a) localContext) arguments)) of
                     Inl e \<Rightarrow>
                       Some (Some e,
                         [Formatted S
                            (js_or (r_context (resolve (merge (f a) localContext) arguments)) (VObj []))
                            (r_message (resolve (merge (f a) localContext) arguments))
                            (r_args (resolve (merge (f a) localContext) arguments))
                            (r_err (resolve (merge (f a) localContext) arguments))])
                   | Inr trace \<Rightarrow>
                       Some (None,
                         [Formatted S
                            (js_or (r_context (resolve (merge (f a) localContext) arguments)) (VObj []))
                            (r_message (resolve (merge (f a) localContext) arguments))
                            (r_args (resolve (merge (f a) localContext) arguments))
                            (r_err (resolve (merge (f a) localContext) arguments)),
                          Written (stream (loggers w i)) (trace @ [CHR 0x0A])]))
             else Some (None, []))"
    if S: "S \<in> set levels" and same: "loggers w2 c = loggers w1 c"
      and g: "getContext (loggers w2 i) = Host_getter f"
    for w2 S f fuel h a arguments
  proof -
    have gc2: "getContext (loggers w2 c) = Child_getter i localContext"
      by (simp add: same lc api)
    have fs: "format (loggers w2 c) = format (loggers w i)" "stream (loggers w2 c) = stream (loggers w i)"
      by (simp_all add: same lc api)
    show ?thesis
      using fns[OF S] logWrap_child[OF gc2 g, of fuel h a S arguments, unfolded fs]
      by (simp add: call_level_def same)
  qed
  show ?thesis
    apply (rule exI[of _ c], rule exI[of _ w1])
    using ch ne li lvl fmt str get get2 fns call
    by (simp add: lc api getLevel_def assms(2) own_merge)
qed

text \<open>Claim C10 on a child of the default instance with \<open>{hostname: 'host.local'}\<close>:
  \<open>info('hi')\<close> writes its line to the stream of the default instance, \<open>debug('hi')\<close>
  nothing; the line and the stream are the same after \<open>setFormat\<close>, \<open>setStream\<close> and
  \<open>setLevel('error')\<close> on the default instance, and after \<open>setContextGetter\<close> there the
  line carries the new \<open>corr\<close>.\<close>

theorem child_captures_witness:
  "(0::nat) < next_logger test_world
   \<and> opts_level (loggers test_world 0) = VStr ''INFO''
   \<and> (\<exists>c w1. child test_world 0 (VObj [(''hostname'', VStr ''host.local'')]) = Inr (c, w1)
         \<and> c \<noteq> 0
         \<and> getLevel (loggers w1 c) = VStr ''INFO''
         \<and> call_level 2 test_env w1 0 c ''info'' [VStr ''hi''] =
             Some (None,
               [Formatted ''INFO'' (VObj [(''hostname'', VStr ''host.local'')]) (VStr ''hi'') [] VUndefined,
                Written 1 (''time=1970-01-01T00:00:00.000Z | lvl=INFO | corr=n/a | trans=n/a | op=n/a | hostname=host.local | msg=hi''
                           @ [CHR 0x0A])])
         \<and> call_level 2 test_env w1 0 c ''debug'' [VStr ''hi''] = Some (None, [])
         \<and> call_level 2 test_env (snd (setLevel_at (setStream (setFormat w1 0 formatJsonTrace) 0 2) 0 (VStr ''error'')))
               0 c ''info'' [VStr ''hi''] =
             Some (None,
               [Formatted ''INFO'' (VObj [(''hostname'', VStr ''host.local'')]) (VStr ''hi'') [] VUndefined,
                Written 1 (''time=1970-01-01T00:00:00.000Z | lvl=INFO | corr=n/a | trans=n/a | op=n/a | hostname=host.local | msg=hi''
                           @ [CHR 0x0A])])
         \<and> call_level 2 test_env (setContextGetter w1 0 (Host_getter (\<lambda>a. VObj [(''corr'', VStr ''x'')])))
               0 c ''info'' [VStr ''hi''] =
             Some (None,
               [Formatted ''INFO'' (VObj [(''corr'', VStr ''x''), (''hostname'', VStr ''host.local'')])
                  (VStr ''hi'') [] VUndefined,
                Written 1 (''time=1970-01-01T00:00:00.000Z | lvl=INFO | corr=x | trans=n/a | op=n/a | hostname=host.local | msg=hi''
                           @ [CHR 0x0A])]))"
proof -
  let ?lc = "VObj [(''hostname'', VStr ''host.local'')]"
  have a: "(0::nat) < next_logger test_world"
    by (simp add: test_world_def)
  have b: "opts_level (loggers test_world 0) = VStr ''INFO''"
    by (simp add: test_world_def test_logger_eq)
  have l: "''INFO'' \<in> set levels" "''DEBUG'' \<in> set levels"
    by (simp_all add: levels_def)
  from child_captures[OF a b, of ?lc]
  obtain c w1 where ch: "child test_world 0 ?lc = Inr (c, w1)"
    and ne: "c \<noteq> 0"
    and li: "loggers w1 0 = loggers test_world 0"
    and lv: "getLevel (loggers w1 c) = getLevel (loggers test_world 0)"
    and call: "\<forall>w2 S f fuel h a arguments.
          S \<in> set levels \<longrightarrow> loggers w2 c = loggers w1 c \<longrightarrow>
          getContext (loggers w2 0) = Host_getter f \<longrightarrow>
          call_level (Suc (Suc fuel)) h w2 a c (toLowerCase S) arguments =
            (if indexOf levels (toUpperCase ''INFO'') \<le> indexOf levels S
             then (case format (loggers test_world 0) h S
                          (js_or (r_context (resolve (merge (f a) ?lc) arguments)) (VObj []))
                          (r_message (resolve (merge (f a) ?lc) arguments))
                          (r_args (resolve (merge (f a) ?lc) arguments))
                          (r_err (resolve (merge (f a) ?lc) arguments)) of
                     Inl e \<Rightarrow>
                       Some (Some e,
                         [Formatted S
                            (js_or (r_context (resolve (merge (f a) ?lc) arguments)) (VObj []))
                            (r_message (resolve (merge (f a) ?lc) arguments))
                            (r_args (resolve (merge (f a) ?lc) arguments))
                            (r_err (resolve (merge (f a) ?lc) arguments))])
                   | Inr trace \<Rightarrow>
                       Some (None,
                         [Formatted S
                            (js_or (r_context (resolve (merge (f a) ?lc) arguments)) (VObj []))
                            (r_message (resolve (merge (f a) ?lc) arguments))
                            (r_args (resolve (merge (f a) ?lc) arguments))
                            (r_err (resolve (merge (f a) ?lc) arguments)),
                          Written (stream (loggers test_world 0)) (trace @ [CHR 0x0A])]))
             else Some (None, []))"
    by (elim exE conjE) (rule that; assumption)
  have g0: "getContext (loggers test_world 0) = Host_getter (\<lambda>a. VObj [])"
    and f0: "format (loggers test_world 0) = formatTrace"
    and s0: "stream (loggers test_world 0) = 1"
    by (simp_all add: test_world_def test_logger_eq)
  have ev: "call_level 2 test_env w2 0 c ''info'' [VStr ''hi''] =
             Some (None,
               [Formatted ''INFO'' (merge (f 0) ?lc) (VStr ''hi'') [] VUndefined,
                Written 1 (t @ [CHR 0x0A])])"
    if "loggers w2 c = loggers w1 c" and "getContext (loggers w2 0) = Host_getter f"
      and "formatTrace test_env ''INFO'' (merge (f 0) ?lc) (VStr ''hi'') [] VUndefined = Inr t"
    for w2 f t
    using call[rule_format, OF l(1) that(1) that(2), of 0 test_env 0 "[VStr ''hi'']"] that(3)
    by (simp add: numeral_2_eq_2 lower_levels upper_samples indexOf_levels f0 s0 resolve_message
          js_or_merge)
  have 1: "call_level 2 test_env w1 0 c ''info'' [VStr ''hi''] =
             Some (None,
               [Formatted ''INFO'' ?lc (VStr ''hi'') [] VUndefined,
                Written 1 (''time=1970-01-01T00:00:00.000Z | lvl=INFO | corr=n/a | trans=n/a | op=n/a | hostname=host.local | msg=hi''
                           @ [CHR 0x0A])])"
    using ev[of w1 "\<lambda>a. VObj []"] li g0
    by (simp add: test_merges test_pipe_hostname)
  have 2: "call_level 2 test_env w1 0 c ''debug'' [VStr ''hi''] = Some (None, [])"
    using call[rule_format, OF l(2) refl, of "\<lambda>a. VObj []" 0 test_env 0 "[VStr ''hi'']"] li g0
    by (simp add: numeral_2_eq_2 lower_levels upper_samples indexOf_levels)
  have 3: "call_level 2 test_env (snd (setLevel_at (setStream (setFormat w1 0 formatJsonTrace) 0 2) 0 (VStr ''error'')))
               0 c ''info'' [VStr ''hi''] =
             Some (None,
               [Formatted ''INFO'' ?lc (VStr ''hi'') [] VUndefined,
                Written 1 (''time=1970-01-01T00:00:00.000Z | lvl=INFO | corr=n/a | trans=n/a | op=n/a | hostname=host.local | msg=hi''
                           @ [CHR 0x0A])])"
  proof -
    let ?w2 = "snd (setLevel_at (setStream (setFormat w1 0 formatJsonTrace) 0 2) 0 (VStr ''error''))"
    have c2: "loggers ?w2 c = loggers w1 c"
      using ne by (simp add: setLevel_at_other setStream_def setFormat_def)
    have g2: "getContext (loggers ?w2 0) = Host_getter (\<lambda>a. VObj [])"
      using li g0 by (simp add: setLevel_at_getContext setStream_def setFormat_def)
    show ?thesis
      using ev[OF c2 g2] by (simp add: test_merges test_pipe_hostname)
  qed
  have 4: "call_level 2 test_env (setContextGetter w1 0 (Host_getter (\<lambda>a. VObj [(''corr'', VStr ''x'')])))
               0 c ''info'' [VStr ''hi''] =
             Some (None,
               [Formatted ''INFO'' (VObj [(''corr'', VStr ''x''), (''hostname'', VStr ''host.local'')])
                  (VStr ''hi'') [] VUndefined,
                Written 1 (''time=1970-01-01T00:00:00.000Z | lvl=INFO | corr=x | trans=n/a | op=n/a | hostname=host.local | msg=hi''
                           @ [CHR 0x0A])])"
  proof -
    let ?w2 = "setContextGetter w1 0 (Host_getter (\<lambda>a. VObj [(''corr'', VStr ''x'')]))"
    have c2: "loggers ?w2 c = loggers w1 c"
      using ne by (simp add: setContextGetter_def)
    have g2: "getContext (loggers ?w2 0) = Host_getter (\<lambda>a. VObj [(''corr'', VStr ''x'')])"
      by (simp add: setContextGetter_def)
    show ?thesis
      using ev[OF c2 g2] by (simp add: test_merges test_pipe_corr_hostname)
  qed
  have "getLevel (loggers w1 c) = VStr ''INFO''"
    using lv b by (simp add: getLevel_def)
  with ch ne 1 2 3 4 have "child test_world 0 ?lc = Inr (c, w1) \<and> c \<noteq> 0
         \<and> getLevel (loggers w1 c) = VStr ''INFO''
         \<and> call_level 2 test_env w1 0 c ''info'' [VStr ''hi''] =
             Some (None,
               [Formatted ''INFO'' ?lc (VStr ''hi'') [] VUndefined,
                Written 1 (''time=1970-01-01T00:00:00.000Z | lvl=INFO | corr=n/a | trans=n/a | op=n/a | hostname=host.local | msg=hi''
                           @ [CHR 0x0A])])
         \<and> call_level 2 test_env w1 0 c ''debug'' [VStr ''hi''] = Some (None, [])
         \<and> call_level 2 test_env (snd (setLevel_at (setStream (setFormat w1 0 formatJsonTrace) 0 2) 0 (VStr ''error'')))
               0 c ''info'' [VStr ''hi''] =
             Some (None,
               [Formatted ''INFO'' ?lc (VStr ''hi'') [] VUndefined,
                Written 1 (''time=1970-01-01T00:00:00.000Z | lvl=INFO | corr=n/a | trans=n/a | op=n/a | hostname=host.local | msg=hi''
                           @ [CHR 0x0A])])
         \<and> call_level 2 test_env (setContextGetter w1 0 (Host_getter (\<lambda>a. VObj [(''corr'', VStr ''x'')])))
               0 c ''info'' [VStr ''hi''] =
             Some (None,
               [Formatted ''INFO'' (VObj [(''corr'', VStr ''x''), (''hostname'', VStr ''host.local'')])
                  (VStr ''hi'') [] VUndefined,
                Written 1 (''time=1970-01-01T00:00:00.000Z | lvl=INFO | corr=x | trans=n/a | op=n/a | hostname=host.local | msg=hi''
                           @ [CHR 0x0A])])"
    by simp
  then show ?thesis using a b by blast
qed

end
